theory Spec2Isabelle
  imports Complex_Main
begin

section \<open>Integrals of the product Matern-3/2 kernel (quadrature\_matern32.py)\<close>

text \<open>
  The module computes closed-form integrals of a product Matern-3/2 kernel over a box.
  The embedding follows \<^verbatim>\<open>emukit/quadrature/kernels/quadrature_matern32.py\<close>.
  Python floats are idealised as the reals: every statement below about a numeric value
  is a statement of exact real arithmetic. Statements about shapes, about errors and
  about which entry goes where do not depend on the arithmetic.
\<close>

subsection \<open>Errors and arrays\<close>

text \<open>The two exceptions the module can raise: the explicit \<^verbatim>\<open>raise NotImplementedError\<close>
  of the general variant, and the \<^verbatim>\<open>IndexError\<close> of an out-of-range subscript.\<close>

datatype error = NotImplementedError | IndexError

text \<open>
  A two-dimensional numpy array: its rows, and the number of columns (which numpy knows
  also when there is no row). \<^verbatim>\<open>shape[0]\<close> is the number of rows, \<^verbatim>\<open>shape[1]\<close> the
  number of columns. Every array numpy builds is rectangular (\<open>wf_ndarray\<close>).
\<close>

record 'a ndarray2 =
  ncols :: nat
  rowsl :: "'a list list"

definition shape0 :: "'a ndarray2 \<Rightarrow> nat" where
  "shape0 x = length (rowsl x)"

definition shape1 :: "'a ndarray2 \<Rightarrow> nat" where
  "shape1 x = ncols x"

definition wf_ndarray :: "'a ndarray2 \<Rightarrow> bool" where
  "wf_ndarray x = list_all (\<lambda>r. length r = ncols x) (rowsl x)"

text \<open>\<^verbatim>\<open>x[i, j]\<close> for indices in range.\<close>

definition entry :: "'a ndarray2 \<Rightarrow> nat \<Rightarrow> nat \<Rightarrow> 'a" where
  "entry x i j = rowsl x ! i ! j"

text \<open>\<^verbatim>\<open>x[:, d]\<close>: the column \<open>d\<close> as a one-dimensional array (a list).\<close>

definition column :: "'a ndarray2 \<Rightarrow> nat \<Rightarrow> 'a list" where
  "column x d = map (\<lambda>r. r ! d) (rowsl x)"

text \<open>\<^verbatim>\<open>x.T\<close>: row \<open>j\<close> of the transpose is column \<open>j\<close> of \<open>x\<close>.\<close>

definition T :: "'a ndarray2 \<Rightarrow> 'a ndarray2" where
  "T x = \<lparr>ncols = shape0 x, rowsl = map (column x) [0..<shape1 x]\<rparr>"

text \<open>Subscript of a Python sequence by a non-negative index: \<^verbatim>\<open>IndexError\<close> out of range.\<close>

definition index_at :: "'a list \<Rightarrow> nat \<Rightarrow> error + 'a" where
  "index_at xs i = (if i < length xs then Inr (xs ! i) else Inl IndexError)"

subsection \<open>The kernel, the bounds and the quadrature kernel object\<close>

record IProductMatern32 =
  kern_lengthscales :: "real list"
  kern_variance :: real

record BoxBounds =
  bounds :: "(real \<times> real) list"

record QuadratureMatern32 =
  kern :: IProductMatern32
  integral_bounds :: BoxBounds

definition lengthscales :: "QuadratureMatern32 \<Rightarrow> real list" where
  "lengthscales self = kern_lengthscales (kern self)"

definition variance :: "QuadratureMatern32 \<Rightarrow> real" where
  "variance self = kern_variance (kern self)"

text \<open>Modelled from the spec: the attribute \<^verbatim>\<open>input_dim\<close> is set by the base class
  \<^verbatim>\<open>QuadratureKernel\<close>, which is not part of the source at hand; the spec describes it as
  "an \<^verbatim>\<open>input_dim\<close> accessor derived from the bounds length".\<close>

definition input_dim :: "QuadratureMatern32 \<Rightarrow> nat" where
  "input_dim self = length (bounds (integral_bounds self))"

subsection \<open>The general variant: class QuadratureMatern32\<close>

definition QuadratureMatern32_qK :: "'self \<Rightarrow> real ndarray2 \<Rightarrow> error + real ndarray2" where
  "QuadratureMatern32_qK self x2 = Inl NotImplementedError"

definition QuadratureMatern32_qKq :: "'self \<Rightarrow> error + real" where
  "QuadratureMatern32_qKq self = Inl NotImplementedError"

definition QuadratureMatern32_dqK_dx :: "'self \<Rightarrow> real ndarray2 \<Rightarrow> error + real ndarray2" where
  "QuadratureMatern32_dqK_dx self x2 = Inl NotImplementedError"

definition QuadratureMatern32_Kq :: "'self \<Rightarrow> real ndarray2 \<Rightarrow> error + real ndarray2" where
  "QuadratureMatern32_Kq self x1 =
     (case QuadratureMatern32_qK self x1 of Inl err \<Rightarrow> Inl err | Inr r \<Rightarrow> Inr (T r))"

definition QuadratureMatern32_dKq_dx :: "'self \<Rightarrow> real ndarray2 \<Rightarrow> error + real ndarray2" where
  "QuadratureMatern32_dKq_dx self x1 =
     (case QuadratureMatern32_dqK_dx self x1 of Inl err \<Rightarrow> Inl err | Inr r \<Rightarrow> Inr (T r))"

subsection \<open>One-dimensional integrals\<close>

text \<open>The three primitives at one coordinate; numpy applies them to an array of
  coordinates element by element.\<close>

definition qK_1d_elem :: "real \<Rightarrow> real \<times> real \<Rightarrow> real \<Rightarrow> real" where
  "qK_1d_elem x domain ell =
     (case domain of (a, b) \<Rightarrow>
        let s3 = sqrt 3;
            first_term = 4 * ell / s3;
            second_term = (- exp (s3 * (x - b) / ell)) * (b + 2 * ell / s3 - x);
            third_term = (- exp (s3 * (a - x) / ell)) * (x + 2 * ell / s3 - a)
        in first_term + second_term + third_term)"

definition qK_1d :: "real list \<Rightarrow> real \<times> real \<Rightarrow> real \<Rightarrow> real list" where
  "qK_1d x domain ell = map (\<lambda>xi. qK_1d_elem xi domain ell) x"

definition qKq_1d :: "real \<times> real \<Rightarrow> real \<Rightarrow> real" where
  "qKq_1d domain ell =
     (case domain of (a, b) \<Rightarrow>
        let r = b - a;
            c = sqrt 3 * r
        in 2 * ell / 3 * (2 * c - 3 * ell + exp (- c / ell) * (c + 3 * ell)))"

definition dqK_dx_1d_elem :: "real \<Rightarrow> real \<times> real \<Rightarrow> real \<Rightarrow> real" where
  "dqK_dx_1d_elem x domain ell =
     (let s3 = sqrt 3 in
      case domain of (a, b) \<Rightarrow>
        let exp_term_b = exp (s3 * (x - b) / ell);
            exp_term_a = exp (s3 * (a - x) / ell);
            first_term = exp_term_b * (- 1 + (s3 / ell) * (x - b));
            second_term = exp_term_a * (1 - (s3 / ell) * (a - x))
        in first_term + second_term)"

definition dqK_dx_1d :: "real list \<Rightarrow> real \<times> real \<Rightarrow> real \<Rightarrow> real list" where
  "dqK_dx_1d x domain ell = map (\<lambda>xi. dqK_dx_1d_elem xi domain ell) x"

subsection \<open>The Lebesgue variant: class QuadratureProductMatern32LebesgueMeasure\<close>

text \<open>The loop of \<^verbatim>\<open>qK\<close> over \<^verbatim>\<open>range(x2.shape[1])\<close>, with the accumulator \<^verbatim>\<open>qK\<close>
  multiplied in place, element by element.\<close>

fun qK_loop ::
  "QuadratureMatern32 \<Rightarrow> real ndarray2 \<Rightarrow> int list \<Rightarrow> nat list \<Rightarrow> real list \<Rightarrow> error + real list"
where
  "qK_loop self x2 skip [] acc = Inr acc"
| "qK_loop self x2 skip (d # ds) acc =
     (if int d \<in> set skip then qK_loop self x2 skip ds acc
      else
        case index_at (bounds (integral_bounds self)) d of
          Inl err \<Rightarrow> Inl err
        | Inr domain \<Rightarrow>
            (case index_at (lengthscales self) d of
               Inl err \<Rightarrow> Inl err
             | Inr ell \<Rightarrow>
                 qK_loop self x2 skip ds
                   (map2 (*) acc (qK_1d (column x2 d) domain ell))))"

definition qK :: "QuadratureMatern32 \<Rightarrow> real ndarray2 \<Rightarrow> int list option \<Rightarrow> error + real ndarray2" where
  "qK self x2 skip_arg =
     (let skip = (case skip_arg of None \<Rightarrow> [] | Some s \<Rightarrow> s) in
      case qK_loop self x2 skip [0..<shape1 x2] (replicate (shape0 x2) 1) of
        Inl err \<Rightarrow> Inl err
      | Inr acc \<Rightarrow> Inr \<lparr>ncols = length acc, rowsl = [map (\<lambda>v. v * variance self) acc]\<rparr>)"

fun qKq_loop :: "QuadratureMatern32 \<Rightarrow> nat list \<Rightarrow> real \<Rightarrow> error + real" where
  "qKq_loop self [] acc = Inr acc"
| "qKq_loop self (d # ds) acc =
     (case index_at (bounds (integral_bounds self)) d of
        Inl err \<Rightarrow> Inl err
      | Inr domain \<Rightarrow>
          (case index_at (lengthscales self) d of
             Inl err \<Rightarrow> Inl err
           | Inr ell \<Rightarrow> qKq_loop self ds (acc * qKq_1d domain ell)))"

definition qKq :: "QuadratureMatern32 \<Rightarrow> error + real" where
  "qKq self =
     (case qKq_loop self [0..<input_dim self] 1 of
        Inl err \<Rightarrow> Inl err
      | Inr acc \<Rightarrow> Inr (variance self * acc))"

text \<open>The loop of \<^verbatim>\<open>dqK_dx\<close>: row \<open>d\<close> of the result array is overwritten in each
  round.\<close>

fun dqK_dx_loop ::
  "QuadratureMatern32 \<Rightarrow> real ndarray2 \<Rightarrow> nat list \<Rightarrow> real ndarray2 \<Rightarrow> error + real ndarray2"
where
  "dqK_dx_loop self x2 [] res = Inr res"
| "dqK_dx_loop self x2 (d # ds) res =
     (case index_at (bounds (integral_bounds self)) d of
        Inl err \<Rightarrow> Inl err
      | Inr domain \<Rightarrow>
          (case index_at (lengthscales self) d of
             Inl err \<Rightarrow> Inl err
           | Inr ell \<Rightarrow>
               (let grad_term = dqK_dx_1d (column x2 d) domain ell in
                case qK self x2 (Some [int d]) of
                  Inl err \<Rightarrow> Inl err
                | Inr other \<Rightarrow>
                    dqK_dx_loop self x2 ds
                      (res\<lparr>rowsl := (rowsl res)[d := map2 (*) grad_term (rowsl other ! 0)]\<rparr>))))"

definition dqK_dx :: "QuadratureMatern32 \<Rightarrow> real ndarray2 \<Rightarrow> error + real ndarray2" where
  "dqK_dx self x2 =
     (let input_dim = shape1 x2 in
      dqK_dx_loop self x2 [0..<input_dim]
        \<lparr>ncols = shape0 x2, rowsl = replicate input_dim (replicate (shape0 x2) 0)\<rparr>)"

text \<open>The inherited \<^verbatim>\<open>Kq\<close> and \<^verbatim>\<open>dKq_dx\<close>, where \<^verbatim>\<open>self.qK\<close> and \<^verbatim>\<open>self.dqK_dx\<close> are
  the methods of the Lebesgue variant (\<^verbatim>\<open>skip\<close> left at its default).\<close>

definition Kq :: "QuadratureMatern32 \<Rightarrow> real ndarray2 \<Rightarrow> error + real ndarray2" where
  "Kq self x1 = (case qK self x1 None of Inl err \<Rightarrow> Inl err | Inr r \<Rightarrow> Inr (T r))"

definition dKq_dx :: "QuadratureMatern32 \<Rightarrow> real ndarray2 \<Rightarrow> error + real ndarray2" where
  "dKq_dx self x1 = (case dqK_dx self x1 of Inl err \<Rightarrow> Inl err | Inr r \<Rightarrow> Inr (T r))"

subsection \<open>The general variant is not implemented\<close>

text \<open>
  Claim C8. On the general (non-Lebesgue) variant, \<^verbatim>\<open>qK\<close>, \<^verbatim>\<open>qKq\<close> and \<^verbatim>\<open>dqK_dx\<close> signal
  "not implemented" for every input and return no value; that error is not the one a
  failing subscript raises.
\<close>

theorem general_variant_not_implemented:
  "QuadratureMatern32_qK self x2 = Inl NotImplementedError
   \<and> QuadratureMatern32_qKq self = Inl NotImplementedError
   \<and> QuadratureMatern32_dqK_dx self x2 = Inl NotImplementedError
   \<and> NotImplementedError \<noteq> IndexError"
  by (simp add: QuadratureMatern32_qK_def QuadratureMatern32_qKq_def
      QuadratureMatern32_dqK_dx_def)

subsection \<open>Reflection symmetry of the one-dimensional kernel mean\<close>

text \<open>
  Claim C9. For all \<open>a < b\<close>, \<open>ell > 0\<close> and real \<open>x\<close>, the one-dimensional kernel mean
  takes the same value at \<open>a + b - x\<close> as at \<open>x\<close>.
\<close>

theorem qK_1d_reflection:
  "a < b \<Longrightarrow> 0 < ell \<Longrightarrow> qK_1d_elem (a + b - x) (a, b) ell = qK_1d_elem x (a, b) ell"
  by (simp add: qK_1d_elem_def Let_def algebra_simps)

theorem qK_1d_reflection_witness:
  "(0::real) < 1 \<and> (0::real) < 2
   \<and> qK_1d_elem (0 + 1 - 1 / 4) (0, 1) 2 = qK_1d_elem (1 / 4) (0, 1) 2"
  using qK_1d_reflection [of 0 1 2 "1 / 4"] by simp

subsection \<open>The gradient primitive is the derivative of the kernel mean\<close>

lemma exp_affine_term_deriv:
  fixes k c m p :: real
  shows "((\<lambda>x. (- exp (k * x + c)) * (m * x + p)) has_real_derivative
           (- exp (k * x + c)) * (k * (m * x + p) + m)) (at x)"
  by (auto intro!: derivative_eq_intros simp: algebra_simps)

text \<open>
  Claim C4. Over the reals, for all \<open>a < b\<close>, \<open>ell > 0\<close> and \<open>x\<close>, the function
  \<open>x \<mapsto> _qK_1d(x, (a, b), ell)\<close> has at \<open>x\<close> the derivative \<open>_dqK_dx_1d(x, (a, b), ell)\<close>.
\<close>

theorem dqK_dx_1d_is_derivative:
  assumes "a < b" "0 < ell"
  shows "((\<lambda>x. qK_1d_elem x (a, b) ell) has_real_derivative dqK_dx_1d_elem x (a, b) ell) (at x)"
proof -
  define k where "k = sqrt 3 / ell"
  define h where "h = 2 * ell / sqrt 3"
  have kh: "k * h = 2" using assms by (simp add: k_def h_def)
  have eb: "sqrt 3 * (y - b) / ell = k * y + (- k * b)" for y
    by (simp add: k_def algebra_simps diff_divide_distrib)
  have ea: "sqrt 3 * (a - y) / ell = (- k) * y + k * a" for y
    by (simp add: k_def algebra_simps diff_divide_distrib)
  have f: "(\<lambda>x. qK_1d_elem x (a, b) ell) =
     (\<lambda>x. 4 * ell / sqrt 3 + (- exp (k * x + (- k * b))) * ((- 1) * x + (b + h))
          + (- exp ((- k) * x + k * a)) * (1 * x + (h - a)))"
    by (rule ext) (simp add: qK_1d_elem_def Let_def eb ea h_def)
  have g: "dqK_dx_1d_elem x (a, b) ell =
      exp (k * x + (- k * b)) * (- 1 + k * (x - b)) + exp ((- k) * x + k * a) * (1 - k * (a - x))"
    by (simp add: dqK_dx_1d_elem_def Let_def eb ea k_def)
  have "((\<lambda>x. 4 * ell / sqrt 3 + (- exp (k * x + (- k * b))) * ((- 1) * x + (b + h))
          + (- exp ((- k) * x + k * a)) * (1 * x + (h - a))) has_real_derivative
      (0 + (- exp (k * x + (- k * b))) * (k * ((- 1) * x + (b + h)) + (- 1))
         + (- exp ((- k) * x + k * a)) * ((- k) * (1 * x + (h - a)) + 1))) (at x)"
    by (intro DERIV_add DERIV_const exp_affine_term_deriv)
  also have "(0 + (- exp (k * x + (- k * b))) * (k * ((- 1) * x + (b + h)) + (- 1))
         + (- exp ((- k) * x + k * a)) * ((- k) * (1 * x + (h - a)) + 1))
      = exp (k * x + (- k * b)) * (- 1 + k * (x - b) + (2 - k * h))
        + exp ((- k) * x + k * a) * (1 - k * (a - x) + (k * h - 2))"
    by (simp add: algebra_simps)
  finally show ?thesis unfolding f g kh by simp
qed

theorem dqK_dx_1d_is_derivative_witness:
  "(0::real) < 1 \<and> (0::real) < 2 \<and>
   ((\<lambda>x. qK_1d_elem x (0, 1) 2) has_real_derivative dqK_dx_1d_elem (1 / 4) (0, 1) 2) (at (1 / 4))"
  using dqK_dx_1d_is_derivative [of 0 1 2 "1 / 4"] by simp

subsection \<open>The double integral\<close>

lemma qKq_loop_prod:
  assumes "\<forall>d\<in>set ds. d < length (bounds (integral_bounds self)) \<and> d < length (lengthscales self)"
  shows "qKq_loop self ds acc =
     Inr (acc * (\<Prod>d\<leftarrow>ds. qKq_1d (bounds (integral_bounds self) ! d) (lengthscales self ! d)))"
  using assms
  by (induction ds arbitrary: acc) (simp_all add: index_at_def mult.assoc)

lemma prod_list_upt:
  fixes f :: "nat \<Rightarrow> real"
  shows "(\<Prod>d\<leftarrow>[0..<n]. f d) = (\<Prod>d<n. f d)"
  by (simp add: prod.distinct_set_conv_list [symmetric] atLeast0LessThan)

lemma qKq_value:
  assumes "input_dim self \<le> length (lengthscales self)"
  shows "qKq self =
     Inr (variance self *
          (\<Prod>d<input_dim self. qKq_1d (bounds (integral_bounds self) ! d) (lengthscales self ! d)))"
proof -
  have "\<forall>d\<in>set [0..<input_dim self].
          d < length (bounds (integral_bounds self)) \<and> d < length (lengthscales self)"
    using assms by (simp add: input_dim_def)
  from qKq_loop_prod [OF this, of 1] show ?thesis
    by (simp add: qKq_def prod_list_upt)
qed

text \<open>
  Claim C2. When there is a lengthscale for every bound pair, \<^verbatim>\<open>qKq()\<close> returns the scalar
  \<open>variance * (\<Prod>d = 0..D-1. qKq_1d(bounds[d], lengthscales[d]))\<close>, where \<open>D\<close> is the
  number of bound pairs and, with \<open>c = sqrt 3 * (b - a)\<close>,
  \<open>qKq_1d((a, b), ell) = (2 * ell / 3) * (2 * c - 3 * ell + exp (- c / ell) * (c + 3 * ell))\<close>.
\<close>

theorem qKq_product:
  assumes "input_dim self \<le> length (lengthscales self)"
  shows "qKq self =
     Inr (variance self *
          (\<Prod>d<input_dim self. qKq_1d (bounds (integral_bounds self) ! d) (lengthscales self ! d)))
   \<and> qKq_1d (a, b) ell =
       (2 * ell / 3) * (2 * (sqrt 3 * (b - a)) - 3 * ell
          + exp (- (sqrt 3 * (b - a)) / ell) * (sqrt 3 * (b - a) + 3 * ell))"
  using qKq_value [OF assms] by (simp add: qKq_1d_def Let_def)

theorem qKq_product_witness:
  "input_dim \<lparr>kern = \<lparr>kern_lengthscales = [2, 1], kern_variance = 3\<rparr>,
               integral_bounds = \<lparr>bounds = [(0, 1), (-1, 1)]\<rparr>\<rparr>
     \<le> length (lengthscales \<lparr>kern = \<lparr>kern_lengthscales = [2, 1], kern_variance = 3\<rparr>,
               integral_bounds = \<lparr>bounds = [(0, 1), (-1, 1)]\<rparr>\<rparr>)
   \<and> qKq \<lparr>kern = \<lparr>kern_lengthscales = [2, 1], kern_variance = 3\<rparr>,
               integral_bounds = \<lparr>bounds = [(0, 1), (-1, 1)]\<rparr>\<rparr>
      = Inr (3 * (qKq_1d (0, 1) 2 * qKq_1d (-1, 1) 1))"
  using qKq_product [of "\<lparr>kern = \<lparr>kern_lengthscales = [2, 1], kern_variance = 3\<rparr>,
               integral_bounds = \<lparr>bounds = [(0, 1), (-1, 1)]\<rparr>\<rparr>"]
  by (simp add: input_dim_def lengthscales_def variance_def lessThan_Suc numeral_2_eq_2
      mult.commute)

subsection \<open>The closed form of the double integral is not negative over the reals\<close>

lemma exp_poly_nonneg:
  fixes t :: real
  assumes "0 \<le> t"
  shows "0 \<le> 2 * t - 3 + exp (- t) * (t + 3)"
proof -
  let ?g = "\<lambda>s::real. 2 * s - 3 + exp (- s) * (s + 3)"
  have "?g 0 \<le> ?g t"
  proof (rule DERIV_nonneg_imp_nondecreasing [OF assms])
    fix s :: real
    assume "0 \<le> s" "s \<le> t"
    have der: "(?g has_real_derivative (2 - exp (- s) * (s + 2))) (at s)"
      by (auto intro!: derivative_eq_intros simp: algebra_simps)
    have "1 + s \<le> exp s" by (rule exp_ge_add_one_self)
    then have "s + 2 \<le> 2 * exp s" using \<open>0 \<le> s\<close> by linarith
    then have "exp (- s) * (s + 2) \<le> exp (- s) * (2 * exp s)"
      by (intro mult_left_mono) simp_all
    also have "\<dots> = 2" by (simp add: exp_minus)
    finally have "0 \<le> 2 - exp (- s) * (s + 2)" by simp
    with der show "\<exists>y. (?g has_real_derivative y) (at s) \<and> 0 \<le> y" by blast
  qed
  then show ?thesis by simp
qed

lemma qKq_1d_nonneg:
  assumes "a \<le> b" "0 < ell"
  shows "0 \<le> qKq_1d (a, b) ell"
proof -
  define t where "t = sqrt 3 * (b - a) / ell"
  have t0: "0 \<le> t" using assms by (simp add: t_def)
  have c: "sqrt 3 * (b - a) = t * ell" using assms by (simp add: t_def)
  have e: "- (t * ell) / ell = - t" using assms by simp
  have "qKq_1d (a, b) ell = 2 * ell / 3 * (2 * (t * ell) - 3 * ell + exp (- t) * (t * ell + 3 * ell))"
    unfolding qKq_1d_def Let_def prod.case c e ..
  also have "\<dots> = 2 * ell / 3 * (ell * (2 * t - 3 + exp (- t) * (t + 3)))"
    by (simp add: algebra_simps)
  also have "0 \<le> \<dots>" using exp_poly_nonneg [OF t0] assms by simp
  finally show ?thesis .
qed

text \<open>
  The closed form of the double integral, over the reals: when every bound pair has
  lower < upper, every lengthscale is positive, there is one lengthscale per bound pair and
  the variance is positive, the real-number value of \<^verbatim>\<open>qKq()\<close> is not negative, and so is
  each one-dimensional factor
  \<open>(2 * ell / 3) * (2 * c - 3 * ell + exp (- c / ell) * (c + 3 * ell))\<close>.

  This is a fact about the formula, not about the value the program returns. The bracket
  equals \<open>3 * r\<^sup>2 / (2 * ell)\<close> up to higher order in \<open>r / ell\<close>, and the program computes
  it in IEEE doubles as a difference of terms of size \<open>3 * ell\<close>. When \<open>r\<close> is small against
  \<open>ell\<close> the bracket lies below the spacing of the doubles near \<open>3 * ell\<close>, and its computed
  value is rounding noise of either sign: for bounds \<open>(0, 0.01)\<close>, lengthscale \<open>1e7\<close> and
  variance \<open>1\<close> the double computation gives about \<open>-0.0248\<close>, where the integral is
  about \<open>1e-4\<close>. Claim C5, that \<^verbatim>\<open>qKq()\<close> is not negative at every valid parameter
  setting, therefore holds of the formula and fails of the program.
\<close>

lemma qKq_nonneg_over_reals:
  assumes len: "length (lengthscales self) = input_dim self"
    and bnd: "\<forall>(a, b)\<in>set (bounds (integral_bounds self)). a < b"
    and ell: "\<forall>l\<in>set (lengthscales self). 0 < l"
    and var: "0 < variance self"
  shows "(\<exists>v. qKq self = Inr v \<and> 0 \<le> v)
       \<and> (\<forall>d<input_dim self.
            0 \<le> qKq_1d (bounds (integral_bounds self) ! d) (lengthscales self ! d))"
proof -
  let ?f = "\<lambda>d. qKq_1d (bounds (integral_bounds self) ! d) (lengthscales self ! d)"
  have f0: "0 \<le> ?f d" if "d < input_dim self" for d
  proof -
    obtain a b where ab: "bounds (integral_bounds self) ! d = (a, b)"
      by (cases "bounds (integral_bounds self) ! d")
    have "(a, b) \<in> set (bounds (integral_bounds self))"
      using that ab unfolding input_dim_def by (metis nth_mem)
    with bnd have "a \<le> b" by auto
    moreover have "0 < lengthscales self ! d" using ell len that by simp
    ultimately show ?thesis unfolding ab by (rule qKq_1d_nonneg)
  qed
  then have "0 \<le> (\<Prod>d<input_dim self. ?f d)" by (intro prod_nonneg) simp
  with var have "0 \<le> variance self * (\<Prod>d<input_dim self. ?f d)" by simp
  moreover have "qKq self = Inr (variance self * (\<Prod>d<input_dim self. ?f d))"
    using len by (intro qKq_value) simp
  ultimately show ?thesis using f0 by blast
qed

lemma qKq_nonneg_over_reals_example:
  "length (lengthscales \<lparr>kern = \<lparr>kern_lengthscales = [2, 1], kern_variance = 3\<rparr>,
               integral_bounds = \<lparr>bounds = [(0, 1), (-1, 1)]\<rparr>\<rparr>)
     = input_dim \<lparr>kern = \<lparr>kern_lengthscales = [2, 1], kern_variance = 3\<rparr>,
               integral_bounds = \<lparr>bounds = [(0, 1), (-1, 1)]\<rparr>\<rparr>
   \<and> 0 < variance \<lparr>kern = \<lparr>kern_lengthscales = [2, 1], kern_variance = 3\<rparr>,
               integral_bounds = \<lparr>bounds = [(0, 1), (-1, 1)]\<rparr>\<rparr>
   \<and> (\<exists>v. qKq \<lparr>kern = \<lparr>kern_lengthscales = [2, 1], kern_variance = 3\<rparr>,
               integral_bounds = \<lparr>bounds = [(0, 1), (-1, 1)]\<rparr>\<rparr> = Inr v \<and> 0 \<le> v)
   \<and> 0 \<le> qKq_1d (0, 1) 2 \<and> 0 \<le> qKq_1d (-1, 1) 1"
  using qKq_nonneg_over_reals [of "\<lparr>kern = \<lparr>kern_lengthscales = [2, 1], kern_variance = 3\<rparr>,
               integral_bounds = \<lparr>bounds = [(0, 1), (-1, 1)]\<rparr>\<rparr>"]
  by (simp add: input_dim_def lengthscales_def variance_def All_less_Suc)

subsection \<open>The kernel mean is the product of the one-dimensional kernel means\<close>

lemma length_qK_1d_column: "length (qK_1d (column x2 d) domain ell) = shape0 x2"
  by (simp add: qK_1d_def column_def shape0_def)

lemma qK_loop_skip_all:
  assumes "\<forall>d\<in>set ds. int d \<in> set skip"
  shows "qK_loop self x2 skip ds acc = Inr acc"
  using assms by (induction ds) simp_all

lemma qK_loop_prod:
  assumes "\<forall>d\<in>set ds. int d \<in> set skip
             \<or> (d < length (bounds (integral_bounds self)) \<and> d < length (lengthscales self))"
    and "length acc = shape0 x2"
  shows "qK_loop self x2 skip ds acc =
     Inr (map (\<lambda>i. acc ! i *
                 (\<Prod>d\<leftarrow>filter (\<lambda>d. int d \<notin> set skip) ds.
                    qK_1d_elem (entry x2 i d) (bounds (integral_bounds self) ! d)
                      (lengthscales self ! d)))
            [0..<shape0 x2])"
  using assms
proof (induction ds arbitrary: acc)
  case Nil
  then show ?case using map_nth [of acc] by simp
next
  case (Cons d ds)
  show ?case
  proof (cases "int d \<in> set skip")
    case True
    with Cons show ?thesis by simp
  next
    case False
    let ?acc = "map2 (*) acc (qK_1d (column x2 d) (bounds (integral_bounds self) ! d) (lengthscales self ! d))"
    have len: "length ?acc = shape0 x2"
      using Cons.prems(2) by (simp add: length_qK_1d_column)
    have nth: "?acc ! i = acc ! i * qK_1d_elem (entry x2 i d) (bounds (integral_bounds self) ! d) (lengthscales self ! d)"
      if "i < shape0 x2" for i
      using that Cons.prems(2)
      by (simp add: qK_1d_def column_def shape0_def entry_def)
    have rng: "d < length (bounds (integral_bounds self))" "d < length (lengthscales self)"
      using Cons.prems(1) False by auto
    have "qK_loop self x2 skip (d # ds) acc = qK_loop self x2 skip ds ?acc"
      using False rng by (simp add: index_at_def)
    also have "\<dots> = Inr (map (\<lambda>i. ?acc ! i *
                 (\<Prod>d\<leftarrow>filter (\<lambda>d. int d \<notin> set skip) ds.
                    qK_1d_elem (entry x2 i d) (bounds (integral_bounds self) ! d)
                      (lengthscales self ! d)))
            [0..<shape0 x2])"
      using Cons.prems(1) len by (intro Cons.IH) simp_all
    also have "\<dots> = Inr (map (\<lambda>i. acc ! i *
                 (\<Prod>d\<leftarrow>filter (\<lambda>d. int d \<notin> set skip) (d # ds).
                    qK_1d_elem (entry x2 i d) (bounds (integral_bounds self) ! d)
                      (lengthscales self ! d)))
            [0..<shape0 x2])"
      using False by (simp add: nth mult.assoc)
    finally show ?thesis .
  qed
qed


lemma prod_list_filter_upt:
  fixes f :: "nat \<Rightarrow> real"
  shows "(\<Prod>d\<leftarrow>filter P [0..<n]. f d) = (\<Prod>d\<in>{d. d < n \<and> P d}. f d)"
proof -
  have "set (filter P [0..<n]) = {d. d < n \<and> P d}" by auto
  then show ?thesis
    using prod.distinct_set_conv_list [of "filter P [0..<n]" f] by simp
qed

lemma qK_value:
  assumes "\<forall>d<shape1 x2. int d \<in> set skip
             \<or> (d < length (bounds (integral_bounds self)) \<and> d < length (lengthscales self))"
  shows "qK self x2 (Some skip) =
     Inr \<lparr>ncols = shape0 x2,
          rowsl = [map (\<lambda>i. (\<Prod>d\<in>{d. d < shape1 x2 \<and> int d \<notin> set skip}.
                      qK_1d_elem (entry x2 i d) (bounds (integral_bounds self) ! d)
                        (lengthscales self ! d)) * variance self)
                   [0..<shape0 x2]]\<rparr>"
proof -
  have "\<forall>d\<in>set [0..<shape1 x2]. int d \<in> set skip
             \<or> (d < length (bounds (integral_bounds self)) \<and> d < length (lengthscales self))"
    using assms by simp
  from qK_loop_prod [OF this, of "replicate (shape0 x2) 1"] show ?thesis
    by (simp add: qK_def prod_list_filter_upt comp_def)
qed

lemma qK_None: "qK self x2 None = qK self x2 (Some [])"
  by (simp add: qK_def)

text \<open>
  Claim C1. For a points array of shape \<open>(N, D)\<close> with \<open>D \<ge> 1\<close>, \<open>D\<close> bound pairs and \<open>D\<close>
  lengthscales, and any skip argument (absent, or a list \<open>S\<close> of indices), \<^verbatim>\<open>qK\<close> returns an
  array of shape \<open>(1, N)\<close> whose entry \<open>[0, i]\<close> is the variance times the product, over the
  dimensions \<open>d < D\<close> that are not in \<open>S\<close>, of \<open>qK_1d(points[i, d], bounds[d], ell[d])\<close>. With
  \<open>S\<close> empty this is the product over all dimensions, with \<open>S = {d}\<close> the product without the
  factor of \<open>d\<close>.
\<close>

theorem qK_separable:
  assumes "wf_ndarray x2" and "1 \<le> shape1 x2"
    and "shape1 x2 = input_dim self" and "shape1 x2 = length (lengthscales self)"
  shows "\<exists>r. qK self x2 skip_arg = Inr r \<and> shape0 r = 1 \<and> shape1 r = shape0 x2 \<and> wf_ndarray r
     \<and> (\<forall>i<shape0 x2. entry r 0 i = variance self *
           (\<Prod>d\<in>{d. d < shape1 x2 \<and> int d \<notin> (case skip_arg of None \<Rightarrow> {} | Some s \<Rightarrow> set s)}.
              qK_1d_elem (entry x2 i d) (bounds (integral_bounds self) ! d)
                (lengthscales self ! d)))"
proof -
  define skip where "skip = (case skip_arg of None \<Rightarrow> [] | Some s \<Rightarrow> s)"
  have s: "(case skip_arg of None \<Rightarrow> {} | Some s \<Rightarrow> set s) = set skip"
    by (simp add: skip_def split: option.split)
  have q: "qK self x2 skip_arg = qK self x2 (Some skip)"
    by (simp add: qK_def skip_def split: option.split)
  have "\<forall>d<shape1 x2. int d \<in> set skip
          \<or> (d < length (bounds (integral_bounds self)) \<and> d < length (lengthscales self))"
    using assms(3,4) by (simp add: input_dim_def)
  from qK_value [OF this] show ?thesis
    unfolding q s
    by (simp add: shape0_def shape1_def wf_ndarray_def entry_def mult.commute)
qed

theorem qK_separable_witness:
  "wf_ndarray \<lparr>ncols = 2, rowsl = [[1 / 4, 1 / 2 :: real]]\<rparr>
   \<and> 1 \<le> shape1 \<lparr>ncols = 2, rowsl = [[1 / 4, 1 / 2 :: real]]\<rparr>
   \<and> shape1 \<lparr>ncols = 2, rowsl = [[1 / 4, 1 / 2 :: real]]\<rparr>
       = input_dim \<lparr>kern = \<lparr>kern_lengthscales = [2, 1], kern_variance = 3\<rparr>,
               integral_bounds = \<lparr>bounds = [(0, 1), (-1, 1)]\<rparr>\<rparr>
   \<and> shape1 \<lparr>ncols = 2, rowsl = [[1 / 4, 1 / 2 :: real]]\<rparr>
       = length (lengthscales \<lparr>kern = \<lparr>kern_lengthscales = [2, 1], kern_variance = 3\<rparr>,
               integral_bounds = \<lparr>bounds = [(0, 1), (-1, 1)]\<rparr>\<rparr>)
   \<and> (\<exists>r. qK \<lparr>kern = \<lparr>kern_lengthscales = [2, 1], kern_variance = 3\<rparr>,
               integral_bounds = \<lparr>bounds = [(0, 1), (-1, 1)]\<rparr>\<rparr>
             \<lparr>ncols = 2, rowsl = [[1 / 4, 1 / 2]]\<rparr> (Some [0]) = Inr r
          \<and> shape0 r = 1 \<and> shape1 r = 1
          \<and> entry r 0 0 = 3 * qK_1d_elem (1 / 2) (-1, 1) 1)"
proof -
  let ?e = "\<lparr>kern = \<lparr>kern_lengthscales = [2, 1], kern_variance = 3\<rparr>,
               integral_bounds = \<lparr>bounds = [(0, 1), (-1, 1)]\<rparr>\<rparr>"
  let ?x = "\<lparr>ncols = 2, rowsl = [[1 / 4, 1 / 2 :: real]]\<rparr>"
  have h1: "wf_ndarray ?x" by (simp add: wf_ndarray_def)
  have h2: "1 \<le> shape1 ?x" by (simp add: shape1_def)
  have h3: "shape1 ?x = input_dim ?e" by (simp add: shape1_def input_dim_def)
  have h4: "shape1 ?x = length (lengthscales ?e)" by (simp add: shape1_def lengthscales_def)
  have S: "{d. d < shape1 ?x \<and> int d \<notin> (case Some [0] of None \<Rightarrow> {} | Some s \<Rightarrow> set s)} = {1}"
    by (auto simp: shape1_def)
  have N: "shape0 ?x = 1" by (simp add: shape0_def)
  from qK_separable [OF h1 h2 h3 h4, of "Some [0]"] show ?thesis
    unfolding S N using h1 h2 h3 h4
    by (auto simp: entry_def variance_def lengthscales_def)
qed

subsection \<open>Skipping every dimension\<close>

text \<open>
  Claim C10. When the skip list holds every column index of the points array, \<^verbatim>\<open>qK\<close>
  returns the array of shape \<open>(1, N)\<close> whose entries all are the variance: the accumulator
  of ones is multiplied by no factor.
\<close>

theorem qK_skip_all:
  assumes "\<forall>d<shape1 x2. int d \<in> set skip"
  shows "qK self x2 (Some skip) =
     Inr \<lparr>ncols = shape0 x2, rowsl = [replicate (shape0 x2) (variance self)]\<rparr>"
proof -
  have "\<forall>d\<in>set [0..<shape1 x2]. int d \<in> set skip" using assms by simp
  then have "qK_loop self x2 skip [0..<shape1 x2] (replicate (shape0 x2) 1) = Inr (replicate (shape0 x2) 1)"
    by (rule qK_loop_skip_all)
  then show ?thesis by (simp add: qK_def)
qed

theorem qK_skip_all_witness:
  "qK \<lparr>kern = \<lparr>kern_lengthscales = [2], kern_variance = 3\<rparr>,
               integral_bounds = \<lparr>bounds = []\<rparr>\<rparr>
        \<lparr>ncols = 2, rowsl = [[1 / 4, 1 / 2], [5, 7]]\<rparr> (Some [1, 0, 4])
      = Inr \<lparr>ncols = 2, rowsl = [[3, 3]]\<rparr>"
  using qK_skip_all [of "\<lparr>ncols = 2, rowsl = [[1 / 4, 1 / 2 :: real], [5, 7]]\<rparr>" "[1, 0, 4]"
      "\<lparr>kern = \<lparr>kern_lengthscales = [2], kern_variance = 3\<rparr>,
               integral_bounds = \<lparr>bounds = []\<rparr>\<rparr>"]
  by (simp add: shape1_def shape0_def variance_def All_less_Suc numeral_2_eq_2)

subsection \<open>The gradient of the kernel mean\<close>

lemma dqK_dx_loop_rows:
  assumes "\<forall>d\<in>set ds. d < length (bounds (integral_bounds self)) \<and> d < length (lengthscales self)
             \<and> d < n \<and> (\<exists>q. qK self x2 (Some [int d]) = Inr q)"
    and "length (rowsl res) = n"
  shows "dqK_dx_loop self x2 ds res =
     Inr (res\<lparr>rowsl :=
            map (\<lambda>d. if d \<in> set ds
                      then map2 (*) (dqK_dx_1d (column x2 d) (bounds (integral_bounds self) ! d)
                                       (lengthscales self ! d))
                                    (rowsl (projr (qK self x2 (Some [int d]))) ! 0)
                      else rowsl res ! d)
              [0..<n]\<rparr>)"
  using assms
proof (induction ds arbitrary: res)
  case Nil
  then show ?case using map_nth [of "rowsl res"] by simp
next
  case (Cons d ds)
  let ?R = "\<lambda>d. map2 (*) (dqK_dx_1d (column x2 d) (bounds (integral_bounds self) ! d)
                                       (lengthscales self ! d))
                                    (rowsl (projr (qK self x2 (Some [int d]))) ! 0)"
  let ?res = "res\<lparr>rowsl := (rowsl res)[d := ?R d]\<rparr>"
  from Cons.prems(1) obtain q where q: "qK self x2 (Some [int d]) = Inr q"
    and rng: "d < length (bounds (integral_bounds self))" "d < length (lengthscales self)" "d < n"
    by auto
  have step: "dqK_dx_loop self x2 (d # ds) res = dqK_dx_loop self x2 ds ?res"
    using q rng by (simp add: index_at_def)
  have len: "length (rowsl ?res) = n" using Cons.prems(2) by simp
  have tl: "\<forall>d\<in>set ds. d < length (bounds (integral_bounds self)) \<and> d < length (lengthscales self)
             \<and> d < n \<and> (\<exists>q. qK self x2 (Some [int d]) = Inr q)"
    using Cons.prems(1) by simp
  have rows: "map (\<lambda>d'. if d' \<in> set ds then ?R d' else rowsl ?res ! d') [0..<n]
            = map (\<lambda>d'. if d' \<in> set (d # ds) then ?R d' else rowsl res ! d') [0..<n]"
    using Cons.prems(2) by (auto simp: nth_list_update)
  show ?case
    unfolding step Cons.IH [OF tl len] rows by simp
qed

lemma dqK_dx_value:
  assumes "shape1 x2 \<le> length (bounds (integral_bounds self))"
    and "shape1 x2 \<le> length (lengthscales self)"
  shows "dqK_dx self x2 =
     Inr \<lparr>ncols = shape0 x2,
          rowsl = map (\<lambda>d. map2 (*) (dqK_dx_1d (column x2 d) (bounds (integral_bounds self) ! d)
                                       (lengthscales self ! d))
                                    (rowsl (projr (qK self x2 (Some [int d]))) ! 0))
                    [0..<shape1 x2]\<rparr>"
proof -
  have ok: "\<forall>d<shape1 x2. int d \<in> set skip
             \<or> (d < length (bounds (integral_bounds self)) \<and> d < length (lengthscales self))" for skip
    using assms by auto
  have "\<forall>d\<in>set [0..<shape1 x2]. d < length (bounds (integral_bounds self))
             \<and> d < length (lengthscales self)
             \<and> d < shape1 x2 \<and> (\<exists>q. qK self x2 (Some [int d]) = Inr q)"
    using assms qK_value [OF ok] by auto
  from dqK_dx_loop_rows [OF this, of "\<lparr>ncols = shape0 x2, rowsl = replicate (shape1 x2) (replicate (shape0 x2) 0)\<rparr>"]
  show ?thesis by (simp add: dqK_dx_def Let_def cong: map_cong)
qed

lemma map2_times_const:
  fixes xs :: "real list"
  assumes "length xs = n"
  shows "map2 (*) xs (map (\<lambda>i. c) [0..<n]) = map (\<lambda>v. v * c) xs"
  using assms by (intro nth_equalityI) simp_all

text \<open>
  Claim C3. For a points array of shape \<open>(N, D)\<close> with \<open>D\<close> bound pairs and \<open>D\<close>
  lengthscales, \<^verbatim>\<open>dqK_dx\<close> returns an array of shape \<open>(D, N)\<close> whose row \<open>d\<close> is the
  elementwise product of \<open>dqK_dx_1d(points[:, d], bounds[d], ell[d])\<close> with row 0 of
  \<open>qK(points, skip=[d])\<close>. Entry \<open>[d, i]\<close> therefore is the derivative factor of dimension
  \<open>d\<close> times the variance, once, times the kernel-mean factors of the other dimensions; for
  \<open>D = 1\<close> row 0 is \<open>dqK_dx_1d(points[:, 0], bounds[0], ell[0])\<close> times the variance.
\<close>

theorem dqK_dx_product_rule:
  assumes "wf_ndarray x2" and "shape1 x2 = input_dim self"
    and "shape1 x2 = length (lengthscales self)"
  shows "\<exists>g. dqK_dx self x2 = Inr g \<and> shape0 g = shape1 x2 \<and> shape1 g = shape0 x2
     \<and> wf_ndarray g
     \<and> (\<forall>d<shape1 x2. \<exists>q. qK self x2 (Some [int d]) = Inr q
           \<and> rowsl g ! d =
               map2 (*) (dqK_dx_1d (column x2 d) (bounds (integral_bounds self) ! d)
                           (lengthscales self ! d))
                        (rowsl q ! 0)
           \<and> (\<forall>i<shape0 x2. entry g d i =
                 dqK_dx_1d_elem (entry x2 i d) (bounds (integral_bounds self) ! d)
                     (lengthscales self ! d)
                 * (variance self *
                     (\<Prod>k\<in>{k. k < shape1 x2 \<and> k \<noteq> d}.
                        qK_1d_elem (entry x2 i k) (bounds (integral_bounds self) ! k)
                          (lengthscales self ! k)))))
     \<and> (shape1 x2 = 1 \<longrightarrow>
           rowsl g ! 0 =
             map (\<lambda>v. v * variance self)
               (dqK_dx_1d (column x2 0) (bounds (integral_bounds self) ! 0)
                  (lengthscales self ! 0)))"
proof -
  let ?bs = "bounds (integral_bounds self)" and ?ls = "lengthscales self"
  let ?D = "shape1 x2" and ?N = "shape0 x2"
  let ?P = "\<lambda>d i. \<Prod>k\<in>{k. k < ?D \<and> int k \<notin> set [int d]}. qK_1d_elem (entry x2 i k) (?bs ! k) (?ls ! k)"
  let ?q = "\<lambda>d. \<lparr>ncols = ?N, rowsl = [map (\<lambda>i. ?P d i * variance self) [0..<?N]]\<rparr>"
  let ?R = "\<lambda>d. map2 (*) (dqK_dx_1d (column x2 d) (?bs ! d) (?ls ! d)) (rowsl (projr (qK self x2 (Some [int d]))) ! 0)"
  let ?g = "\<lparr>ncols = ?N, rowsl = map ?R [0..<?D]\<rparr>"
  have le: "?D \<le> length ?bs" "?D \<le> length ?ls"
    using assms(2,3) by (simp_all add: input_dim_def)
  have g: "dqK_dx self x2 = Inr ?g" by (rule dqK_dx_value [OF le])
  have q: "qK self x2 (Some [int d]) = Inr (?q d)" for d
    using le by (intro qK_value) auto
  have lenR: "length (?R d) = ?N" for d
    by (simp add: q dqK_dx_1d_def column_def shape0_def)
  have Pset: "{k. k < ?D \<and> int k \<notin> set [int d]} = {k. k < ?D \<and> k \<noteq> d}" for d
    by auto
  have ent: "?R d ! i = dqK_dx_1d_elem (entry x2 i d) (?bs ! d) (?ls ! d)
                 * (variance self * (\<Prod>k\<in>{k. k < ?D \<and> k \<noteq> d}.
                        qK_1d_elem (entry x2 i k) (?bs ! k) (?ls ! k)))"
    if "i < ?N" for d i
    using that unfolding q Pset
    by (simp add: dqK_dx_1d_def column_def shape0_def entry_def mult.commute)
  have one: "?R 0 = map (\<lambda>v. v * variance self) (dqK_dx_1d (column x2 0) (?bs ! 0) (?ls ! 0))"
    if "?D = 1"
  proof -
    have E: "{k. k < ?D \<and> int k \<notin> set [int 0]} = {}" using that by auto
    have P1: "?P 0 i = 1" for i unfolding E by simp
    have "rowsl (projr (qK self x2 (Some [int 0]))) ! 0 = map (\<lambda>i. variance self) [0..<?N]"
      unfolding q P1 by simp
    moreover have "length (dqK_dx_1d (column x2 0) (?bs ! 0) (?ls ! 0)) = ?N"
      by (simp add: dqK_dx_1d_def column_def shape0_def)
    ultimately show ?thesis by (simp add: map2_times_const)
  qed
  have "shape0 ?g = ?D" by (simp add: shape0_def)
  moreover have "shape1 ?g = ?N" by (simp add: shape1_def)
  moreover have "wf_ndarray ?g"
    unfolding wf_ndarray_def list_all_iff using lenR by auto
  moreover have "\<forall>d<?D. \<exists>qq. qK self x2 (Some [int d]) = Inr qq
           \<and> rowsl ?g ! d = map2 (*) (dqK_dx_1d (column x2 d) (?bs ! d) (?ls ! d)) (rowsl qq ! 0)
           \<and> (\<forall>i<?N. entry ?g d i =
                 dqK_dx_1d_elem (entry x2 i d) (?bs ! d) (?ls ! d)
                 * (variance self * (\<Prod>k\<in>{k. k < ?D \<and> k \<noteq> d}.
                        qK_1d_elem (entry x2 i k) (?bs ! k) (?ls ! k))))"
  proof (intro allI impI)
    fix d assume d: "d < ?D"
    have r: "rowsl ?g ! d = ?R d" using d by simp
    have "rowsl ?g ! d = map2 (*) (dqK_dx_1d (column x2 d) (?bs ! d) (?ls ! d)) (rowsl (?q d) ! 0)"
      using d unfolding q by simp
    moreover have "\<forall>i<?N. entry ?g d i =
                 dqK_dx_1d_elem (entry x2 i d) (?bs ! d) (?ls ! d)
                 * (variance self * (\<Prod>k\<in>{k. k < ?D \<and> k \<noteq> d}.
                        qK_1d_elem (entry x2 i k) (?bs ! k) (?ls ! k)))"
      using ent [of _ d] d by (simp add: entry_def [of "\<lparr>ncols = ?N, rowsl = map ?R [0..<?D]\<rparr>"] r)
    ultimately show "\<exists>qq. qK self x2 (Some [int d]) = Inr qq
           \<and> rowsl ?g ! d = map2 (*) (dqK_dx_1d (column x2 d) (?bs ! d) (?ls ! d)) (rowsl qq ! 0)
           \<and> (\<forall>i<?N. entry ?g d i =
                 dqK_dx_1d_elem (entry x2 i d) (?bs ! d) (?ls ! d)
                 * (variance self * (\<Prod>k\<in>{k. k < ?D \<and> k \<noteq> d}.
                        qK_1d_elem (entry x2 i k) (?bs ! k) (?ls ! k))))"
      using q [of d] by blast
  qed
  moreover have "?D = 1 \<longrightarrow> rowsl ?g ! 0 =
             map (\<lambda>v. v * variance self) (dqK_dx_1d (column x2 0) (?bs ! 0) (?ls ! 0))"
    using one by simp
  ultimately show ?thesis using g by blast
qed

theorem dqK_dx_product_rule_witness:
  "wf_ndarray \<lparr>ncols = 2, rowsl = [[1 / 4, 1 / 2 :: real]]\<rparr>
   \<and> shape1 \<lparr>ncols = 2, rowsl = [[1 / 4, 1 / 2 :: real]]\<rparr>
       = input_dim \<lparr>kern = \<lparr>kern_lengthscales = [2, 1], kern_variance = 3\<rparr>,
               integral_bounds = \<lparr>bounds = [(0, 1), (-1, 1)]\<rparr>\<rparr>
   \<and> shape1 \<lparr>ncols = 2, rowsl = [[1 / 4, 1 / 2 :: real]]\<rparr>
       = length (lengthscales \<lparr>kern = \<lparr>kern_lengthscales = [2, 1], kern_variance = 3\<rparr>,
               integral_bounds = \<lparr>bounds = [(0, 1), (-1, 1)]\<rparr>\<rparr>)
   \<and> (\<exists>g. dqK_dx \<lparr>kern = \<lparr>kern_lengthscales = [2, 1], kern_variance = 3\<rparr>,
               integral_bounds = \<lparr>bounds = [(0, 1), (-1, 1)]\<rparr>\<rparr>
             \<lparr>ncols = 2, rowsl = [[1 / 4, 1 / 2]]\<rparr> = Inr g
          \<and> shape0 g = 2 \<and> shape1 g = 1
          \<and> entry g 0 0 = dqK_dx_1d_elem (1 / 4) (0, 1) 2 * (3 * qK_1d_elem (1 / 2) (-1, 1) 1))
   \<and> wf_ndarray \<lparr>ncols = 1, rowsl = [[1 / 4 :: real], [1 / 2]]\<rparr>
   \<and> shape1 \<lparr>ncols = 1, rowsl = [[1 / 4 :: real], [1 / 2]]\<rparr> = 1
   \<and> (\<exists>g. dqK_dx \<lparr>kern = \<lparr>kern_lengthscales = [2], kern_variance = 3\<rparr>,
               integral_bounds = \<lparr>bounds = [(0, 1)]\<rparr>\<rparr>
             \<lparr>ncols = 1, rowsl = [[1 / 4], [1 / 2]]\<rparr> = Inr g
          \<and> rowsl g ! 0 = [dqK_dx_1d_elem (1 / 4) (0, 1) 2 * 3, dqK_dx_1d_elem (1 / 2) (0, 1) 2 * 3])"
proof -
  let ?e = "\<lparr>kern = \<lparr>kern_lengthscales = [2, 1], kern_variance = 3\<rparr>,
               integral_bounds = \<lparr>bounds = [(0, 1), (-1, 1)]\<rparr>\<rparr>"
  let ?x = "\<lparr>ncols = 2, rowsl = [[1 / 4, 1 / 2 :: real]]\<rparr>"
  let ?e1 = "\<lparr>kern = \<lparr>kern_lengthscales = [2], kern_variance = 3\<rparr>,
               integral_bounds = \<lparr>bounds = [(0, 1)]\<rparr>\<rparr>"
  let ?x1 = "\<lparr>ncols = 1, rowsl = [[1 / 4 :: real], [1 / 2]]\<rparr>"
  have h1: "wf_ndarray ?x" by (simp add: wf_ndarray_def)
  have h2: "shape1 ?x = input_dim ?e" by (simp add: shape1_def input_dim_def)
  have h3: "shape1 ?x = length (lengthscales ?e)" by (simp add: shape1_def lengthscales_def)
  have k1: "wf_ndarray ?x1" by (simp add: wf_ndarray_def)
  have k2: "shape1 ?x1 = input_dim ?e1" by (simp add: shape1_def input_dim_def)
  have k3: "shape1 ?x1 = length (lengthscales ?e1)" by (simp add: shape1_def lengthscales_def)
  have k4: "shape1 ?x1 = 1" by (simp add: shape1_def)
  have S: "{k. k < shape1 ?x \<and> k \<noteq> 0} = {1}" by (auto simp: shape1_def)
  have D: "shape1 ?x = 2" and N: "shape0 ?x = 1" by (simp_all add: shape1_def shape0_def)
  from dqK_dx_product_rule [OF h1 h2 h3] obtain g where
    g: "dqK_dx ?e ?x = Inr g" "shape0 g = shape1 ?x" "shape1 g = shape0 ?x"
    and gd: "\<forall>d<shape1 ?x. \<exists>q. qK ?e ?x (Some [int d]) = Inr q
           \<and> rowsl g ! d =
               map2 (*) (dqK_dx_1d (column ?x d) (bounds (integral_bounds ?e) ! d)
                           (lengthscales ?e ! d))
                        (rowsl q ! 0)
           \<and> (\<forall>i<shape0 ?x. entry g d i =
                 dqK_dx_1d_elem (entry ?x i d) (bounds (integral_bounds ?e) ! d)
                     (lengthscales ?e ! d)
                 * (variance ?e *
                     (\<Prod>k\<in>{k. k < shape1 ?x \<and> k \<noteq> d}.
                        qK_1d_elem (entry ?x i k) (bounds (integral_bounds ?e) ! k)
                          (lengthscales ?e ! k))))"
    by blast
  have d0: "0 < shape1 ?x" by (simp add: shape1_def)
  from gd [rule_format, OF d0] have "\<forall>i<shape0 ?x. entry g 0 i =
                 dqK_dx_1d_elem (entry ?x i 0) (bounds (integral_bounds ?e) ! 0)
                     (lengthscales ?e ! 0)
                 * (variance ?e *
                     (\<Prod>k\<in>{k. k < shape1 ?x \<and> k \<noteq> 0}.
                        qK_1d_elem (entry ?x i k) (bounds (integral_bounds ?e) ! k)
                          (lengthscales ?e ! k)))"
    by blast
  then have e00: "entry g 0 0 = dqK_dx_1d_elem (1 / 4) (0, 1) 2 * (3 * qK_1d_elem (1 / 2) (-1, 1) 1)"
    unfolding S N by (simp add: entry_def variance_def lengthscales_def)
  have A: "\<exists>g. dqK_dx ?e ?x = Inr g \<and> shape0 g = 2 \<and> shape1 g = 1
          \<and> entry g 0 0 = dqK_dx_1d_elem (1 / 4) (0, 1) 2 * (3 * qK_1d_elem (1 / 2) (-1, 1) 1)"
    using g e00 unfolding D N by auto
  from dqK_dx_product_rule [OF k1 k2 k3] k4 obtain g1 where
    g1: "dqK_dx ?e1 ?x1 = Inr g1"
      "rowsl g1 ! 0 = map (\<lambda>v. v * variance ?e1)
               (dqK_dx_1d (column ?x1 0) (bounds (integral_bounds ?e1) ! 0)
                  (lengthscales ?e1 ! 0))"
    by blast
  have B: "\<exists>g. dqK_dx ?e1 ?x1 = Inr g
          \<and> rowsl g ! 0 = [dqK_dx_1d_elem (1 / 4) (0, 1) 2 * 3, dqK_dx_1d_elem (1 / 2) (0, 1) 2 * 3]"
    using g1 by (simp add: variance_def lengthscales_def dqK_dx_1d_def column_def)
  show ?thesis using h1 h2 h3 k1 k4 A B by blast
qed

subsection \<open>Transposed counterparts\<close>

lemma T_shape: "shape0 (T x) = shape1 x" "shape1 (T x) = shape0 x"
  by (simp_all add: T_def shape0_def shape1_def)

lemma T_wf: "wf_ndarray (T x)"
  by (simp add: T_def wf_ndarray_def list_all_iff column_def shape0_def)

lemma T_entry: "i < shape0 x \<Longrightarrow> j < shape1 x \<Longrightarrow> entry (T x) j i = entry x i j"
  by (simp add: T_def entry_def column_def shape0_def shape1_def)


text \<open>
  Claim C6. For a points array of shape \<open>(N, D)\<close> with \<open>D\<close> bound pairs and \<open>D\<close>
  lengthscales, \<^verbatim>\<open>Kq\<close> returns the transpose of what \<^verbatim>\<open>qK\<close> returns, of shape \<open>(N, 1)\<close>
  with entry \<open>[i, 0]\<close> the entry \<open>[0, i]\<close> of \<^verbatim>\<open>qK\<close>, and \<^verbatim>\<open>dKq_dx\<close> returns the
  transpose of what \<^verbatim>\<open>dqK_dx\<close> returns, of shape \<open>(N, D)\<close> with entry \<open>[i, d]\<close> the entry
  \<open>[d, i]\<close> of \<^verbatim>\<open>dqK_dx\<close>. The transpose moves entries and computes nothing, so the values
  are the same whatever the arithmetic.
\<close>

theorem Kq_is_transpose:
  assumes "wf_ndarray x1" and "shape1 x1 = input_dim self"
    and "shape1 x1 = length (lengthscales self)"
  shows "\<exists>r g. qK self x1 None = Inr r \<and> Kq self x1 = Inr (T r)
       \<and> shape0 (T r) = shape0 x1 \<and> shape1 (T r) = 1
       \<and> (\<forall>i<shape0 x1. entry (T r) i 0 = entry r 0 i)
       \<and> dqK_dx self x1 = Inr g \<and> dKq_dx self x1 = Inr (T g)
       \<and> shape0 (T g) = shape0 x1 \<and> shape1 (T g) = shape1 x1
       \<and> (\<forall>i<shape0 x1. \<forall>d<shape1 x1. entry (T g) i d = entry g d i)"
proof -
  have le: "shape1 x1 \<le> length (bounds (integral_bounds self))"
      "shape1 x1 \<le> length (lengthscales self)"
    using assms(2,3) by (simp_all add: input_dim_def)
  have "\<forall>d<shape1 x1. int d \<in> set []
          \<or> (d < length (bounds (integral_bounds self)) \<and> d < length (lengthscales self))"
    using le by auto
  from qK_value [OF this] obtain r where
    r: "qK self x1 None = Inr r" "shape0 r = 1" "shape1 r = shape0 x1"
    by (simp add: qK_None shape0_def shape1_def)
  from dqK_dx_value [OF le] obtain g where
    g: "dqK_dx self x1 = Inr g" "shape0 g = shape1 x1" "shape1 g = shape0 x1"
    by (simp add: shape0_def shape1_def)
  have "Kq self x1 = Inr (T r)" using r(1) by (simp add: Kq_def)
  moreover have "dKq_dx self x1 = Inr (T g)" using g(1) by (simp add: dKq_dx_def)
  moreover have "shape0 (T r) = shape0 x1" "shape1 (T r) = 1"
    "shape0 (T g) = shape0 x1" "shape1 (T g) = shape1 x1"
    using r g by (simp_all add: T_shape)
  moreover have "\<forall>i<shape0 x1. entry (T r) i 0 = entry r 0 i"
    using r by (simp add: T_entry)
  moreover have "\<forall>i<shape0 x1. \<forall>d<shape1 x1. entry (T g) i d = entry g d i"
    using g by (simp add: T_entry)
  ultimately show ?thesis using r(1) g(1) by blast
qed

theorem Kq_is_transpose_witness:
  "wf_ndarray \<lparr>ncols = 2, rowsl = [[1 / 4, 1 / 2 :: real]]\<rparr>
   \<and> shape1 \<lparr>ncols = 2, rowsl = [[1 / 4, 1 / 2 :: real]]\<rparr>
       = input_dim \<lparr>kern = \<lparr>kern_lengthscales = [2, 1], kern_variance = 3\<rparr>,
               integral_bounds = \<lparr>bounds = [(0, 1), (-1, 1)]\<rparr>\<rparr>
   \<and> shape1 \<lparr>ncols = 2, rowsl = [[1 / 4, 1 / 2 :: real]]\<rparr>
       = length (lengthscales \<lparr>kern = \<lparr>kern_lengthscales = [2, 1], kern_variance = 3\<rparr>,
               integral_bounds = \<lparr>bounds = [(0, 1), (-1, 1)]\<rparr>\<rparr>)
   \<and> (\<exists>r g. qK \<lparr>kern = \<lparr>kern_lengthscales = [2, 1], kern_variance = 3\<rparr>,
               integral_bounds = \<lparr>bounds = [(0, 1), (-1, 1)]\<rparr>\<rparr>
             \<lparr>ncols = 2, rowsl = [[1 / 4, 1 / 2]]\<rparr> None = Inr r
        \<and> Kq \<lparr>kern = \<lparr>kern_lengthscales = [2, 1], kern_variance = 3\<rparr>,
               integral_bounds = \<lparr>bounds = [(0, 1), (-1, 1)]\<rparr>\<rparr>
             \<lparr>ncols = 2, rowsl = [[1 / 4, 1 / 2]]\<rparr> = Inr (T r)
        \<and> shape0 (T r) = 1 \<and> shape1 (T r) = 1 \<and> entry (T r) 0 0 = entry r 0 0
        \<and> dqK_dx \<lparr>kern = \<lparr>kern_lengthscales = [2, 1], kern_variance = 3\<rparr>,
               integral_bounds = \<lparr>bounds = [(0, 1), (-1, 1)]\<rparr>\<rparr>
             \<lparr>ncols = 2, rowsl = [[1 / 4, 1 / 2]]\<rparr> = Inr g
        \<and> dKq_dx \<lparr>kern = \<lparr>kern_lengthscales = [2, 1], kern_variance = 3\<rparr>,
               integral_bounds = \<lparr>bounds = [(0, 1), (-1, 1)]\<rparr>\<rparr>
             \<lparr>ncols = 2, rowsl = [[1 / 4, 1 / 2]]\<rparr> = Inr (T g)
        \<and> shape0 (T g) = 1 \<and> shape1 (T g) = 2 \<and> entry (T g) 0 1 = entry g 1 0)"
proof -
  let ?e = "\<lparr>kern = \<lparr>kern_lengthscales = [2, 1], kern_variance = 3\<rparr>,
               integral_bounds = \<lparr>bounds = [(0, 1), (-1, 1)]\<rparr>\<rparr>"
  let ?x = "\<lparr>ncols = 2, rowsl = [[1 / 4, 1 / 2 :: real]]\<rparr>"
  have h1: "wf_ndarray ?x" by (simp add: wf_ndarray_def)
  have h2: "shape1 ?x = input_dim ?e" by (simp add: shape1_def input_dim_def)
  have h3: "shape1 ?x = length (lengthscales ?e)" by (simp add: shape1_def lengthscales_def)
  have D: "shape1 ?x = 2" and N: "shape0 ?x = 1" by (simp_all add: shape1_def shape0_def)
  from Kq_is_transpose [OF h1 h2 h3] obtain r g where
    a: "qK ?e ?x None = Inr r" "Kq ?e ?x = Inr (T r)"
       "shape0 (T r) = shape0 ?x" "shape1 (T r) = 1"
       "dqK_dx ?e ?x = Inr g" "dKq_dx ?e ?x = Inr (T g)"
       "shape0 (T g) = shape0 ?x" "shape1 (T g) = shape1 ?x"
    and b: "\<forall>i<shape0 ?x. entry (T r) i 0 = entry r 0 i"
    and c: "\<forall>i<shape0 ?x. \<forall>d<shape1 ?x. entry (T g) i d = entry g d i"
    by blast
  have "entry (T r) 0 0 = entry r 0 0" using b unfolding N by simp
  moreover have "entry (T g) 0 1 = entry g 1 0" using c unfolding N D by simp
  ultimately show ?thesis using a h1 h2 h3 unfolding N D by blast
qed

subsection \<open>Points of another dimensionality than the bounds\<close>

lemma qK_loop_error:
  assumes "d \<in> set ds" and "int d \<notin> set skip"
    and "length (bounds (integral_bounds self)) \<le> d \<or> length (lengthscales self) \<le> d"
  shows "qK_loop self x2 skip ds acc = Inl IndexError"
  using assms(1)
proof (induction ds arbitrary: acc)
  case Nil
  then show ?case by simp
next
  case (Cons k ds)
  show ?case
  proof (cases "k = d")
    case True
    then show ?thesis using assms(2,3) by (auto simp: index_at_def)
  next
    case False
    with Cons.prems have "d \<in> set ds" by simp
    then show ?thesis using Cons.IH by (simp add: index_at_def)
  qed
qed

lemma qK_error:
  assumes "d < shape1 x2" and "int d \<notin> set skip"
    and "length (bounds (integral_bounds self)) \<le> d \<or> length (lengthscales self) \<le> d"
  shows "qK self x2 (Some skip) = Inl IndexError"
proof -
  have "d \<in> set [0..<shape1 x2]" using assms(1) by simp
  from qK_loop_error [OF this assms(2,3)] show ?thesis by (simp add: qK_def)
qed

lemma dqK_dx_error:
  assumes "length (bounds (integral_bounds self)) < shape1 x2
           \<or> length (lengthscales self) < shape1 x2"
  shows "dqK_dx self x2 = Inl IndexError"
proof -
  define m where "m = min (length (bounds (integral_bounds self))) (length (lengthscales self))"
  have m: "m < shape1 x2"
    "length (bounds (integral_bounds self)) \<le> m \<or> length (lengthscales self) \<le> m"
    using assms by (auto simp: m_def)
  then have up: "[0..<shape1 x2] = 0 # [1..<shape1 x2]"
    by (simp add: upt_conv_Cons)
  show ?thesis
  proof (cases "m = 0")
    case True
    with m(2) show ?thesis
      by (auto simp: dqK_dx_def Let_def up index_at_def)
  next
    case False
    then have "int m \<notin> set [int 0]" by simp
    from qK_error [OF m(1) this m(2)] show ?thesis
      by (simp add: dqK_dx_def Let_def up index_at_def)
  qed
qed

text \<open>
  A points array with one column, against two bound pairs and two lengthscales: both
  \<^verbatim>\<open>qK\<close> and \<^verbatim>\<open>dqK_dx\<close> return a value, computed from the first dimension alone.
\<close>

theorem qK_fewer_columns_counterexample:
  "shape1 \<lparr>ncols = 1, rowsl = [[1 / 2 :: real]]\<rparr>
     \<noteq> input_dim \<lparr>kern = \<lparr>kern_lengthscales = [2, 1], kern_variance = 3\<rparr>,
               integral_bounds = \<lparr>bounds = [(0, 1), (-1, 1)]\<rparr>\<rparr>
   \<and> shape1 \<lparr>ncols = 1, rowsl = [[1 / 2 :: real]]\<rparr>
     \<noteq> length (lengthscales \<lparr>kern = \<lparr>kern_lengthscales = [2, 1], kern_variance = 3\<rparr>,
               integral_bounds = \<lparr>bounds = [(0, 1), (-1, 1)]\<rparr>\<rparr>)
   \<and> qK \<lparr>kern = \<lparr>kern_lengthscales = [2, 1], kern_variance = 3\<rparr>,
               integral_bounds = \<lparr>bounds = [(0, 1), (-1, 1)]\<rparr>\<rparr>
        \<lparr>ncols = 1, rowsl = [[1 / 2]]\<rparr> None
      = Inr \<lparr>ncols = 1, rowsl = [[qK_1d_elem (1 / 2) (0, 1) 2 * 3]]\<rparr>
   \<and> dqK_dx \<lparr>kern = \<lparr>kern_lengthscales = [2, 1], kern_variance = 3\<rparr>,
               integral_bounds = \<lparr>bounds = [(0, 1), (-1, 1)]\<rparr>\<rparr>
        \<lparr>ncols = 1, rowsl = [[1 / 2]]\<rparr>
      = Inr \<lparr>ncols = 1, rowsl = [[dqK_dx_1d_elem (1 / 2) (0, 1) 2 * 3]]\<rparr>"
  by (simp add: shape1_def shape0_def input_dim_def lengthscales_def variance_def qK_def
      dqK_dx_def index_at_def qK_1d_def dqK_dx_1d_def column_def Let_def)

text \<open>
  Claim C7, as the code has it. Neither \<^verbatim>\<open>qK\<close> nor \<^verbatim>\<open>dqK_dx\<close> compares the number of
  columns of the points array with the number of bound pairs or of lengthscales.
  \<^verbatim>\<open>qK(points, skip)\<close> raises \<^verbatim>\<open>IndexError\<close> exactly when some column index \<open>d\<close> of the
  points array that is not in \<open>skip\<close> has no bound pair or no lengthscale; otherwise, also
  when the points array has fewer columns than there are bound pairs and lengthscales, it
  raises nothing and returns the variance times the product over the columns of the points
  array only. \<^verbatim>\<open>dqK_dx(points)\<close> raises \<^verbatim>\<open>IndexError\<close> exactly when the points array has
  more columns than there are bound pairs or lengthscales.
\<close>

theorem qK_no_dimension_check:
  "qK self x2 (Some skip) =
     (if \<exists>d<shape1 x2. int d \<notin> set skip
            \<and> (length (bounds (integral_bounds self)) \<le> d \<or> length (lengthscales self) \<le> d)
      then Inl IndexError
      else Inr \<lparr>ncols = shape0 x2,
                rowsl = [map (\<lambda>i. (\<Prod>d\<in>{d. d < shape1 x2 \<and> int d \<notin> set skip}.
                            qK_1d_elem (entry x2 i d) (bounds (integral_bounds self) ! d)
                              (lengthscales self ! d)) * variance self)
                         [0..<shape0 x2]]\<rparr>)
   \<and> (if length (bounds (integral_bounds self)) < shape1 x2
            \<or> length (lengthscales self) < shape1 x2
      then dqK_dx self x2 = Inl IndexError
      else \<exists>g. dqK_dx self x2 = Inr g \<and> shape0 g = shape1 x2 \<and> shape1 g = shape0 x2)"
proof -
  have A: "qK self x2 (Some skip) = Inl IndexError"
    if "\<exists>d<shape1 x2. int d \<notin> set skip
            \<and> (length (bounds (integral_bounds self)) \<le> d \<or> length (lengthscales self) \<le> d)"
    using that qK_error by blast
  have B: "qK self x2 (Some skip) = Inr \<lparr>ncols = shape0 x2,
                rowsl = [map (\<lambda>i. (\<Prod>d\<in>{d. d < shape1 x2 \<and> int d \<notin> set skip}.
                            qK_1d_elem (entry x2 i d) (bounds (integral_bounds self) ! d)
                              (lengthscales self ! d)) * variance self)
                         [0..<shape0 x2]]\<rparr>"
    if "\<not> (\<exists>d<shape1 x2. int d \<notin> set skip
            \<and> (length (bounds (integral_bounds self)) \<le> d \<or> length (lengthscales self) \<le> d))"
    using that by (intro qK_value) (auto simp: not_le)
  have C: "\<exists>g. dqK_dx self x2 = Inr g \<and> shape0 g = shape1 x2 \<and> shape1 g = shape0 x2"
    if "\<not> (length (bounds (integral_bounds self)) < shape1 x2
            \<or> length (lengthscales self) < shape1 x2)"
  proof -
    have "shape1 x2 \<le> length (bounds (integral_bounds self))"
      "shape1 x2 \<le> length (lengthscales self)" using that by auto
    from dqK_dx_value [OF this] show ?thesis by (simp add: shape0_def shape1_def)
  qed
  show ?thesis using A B C dqK_dx_error [of self x2] by presburger
qed

theorem qK_no_dimension_check_witness:
  "qK \<lparr>kern = \<lparr>kern_lengthscales = [2, 1], kern_variance = 3\<rparr>,
               integral_bounds = \<lparr>bounds = [(0, 1), (-1, 1)]\<rparr>\<rparr>
        \<lparr>ncols = 3, rowsl = [[1 / 2, 1 / 4, 1 / 8]]\<rparr> (Some []) = Inl IndexError
   \<and> dqK_dx \<lparr>kern = \<lparr>kern_lengthscales = [2, 1], kern_variance = 3\<rparr>,
               integral_bounds = \<lparr>bounds = [(0, 1), (-1, 1)]\<rparr>\<rparr>
        \<lparr>ncols = 3, rowsl = [[1 / 2, 1 / 4, 1 / 8]]\<rparr> = Inl IndexError
   \<and> qK \<lparr>kern = \<lparr>kern_lengthscales = [2, 1], kern_variance = 3\<rparr>,
               integral_bounds = \<lparr>bounds = [(0, 1), (-1, 1)]\<rparr>\<rparr>
        \<lparr>ncols = 1, rowsl = [[1 / 2]]\<rparr> (Some [])
      = Inr \<lparr>ncols = 1, rowsl = [[qK_1d_elem (1 / 2) (0, 1) 2 * 3]]\<rparr>
   \<and> (\<exists>g. dqK_dx \<lparr>kern = \<lparr>kern_lengthscales = [2, 1], kern_variance = 3\<rparr>,
               integral_bounds = \<lparr>bounds = [(0, 1), (-1, 1)]\<rparr>\<rparr>
        \<lparr>ncols = 1, rowsl = [[1 / 2]]\<rparr> = Inr g \<and> shape0 g = 1 \<and> shape1 g = 1)"
proof -
  let ?e = "\<lparr>kern = \<lparr>kern_lengthscales = [2, 1], kern_variance = 3\<rparr>,
               integral_bounds = \<lparr>bounds = [(0, 1), (-1, 1)]\<rparr>\<rparr>"
  let ?x3 = "\<lparr>ncols = 3, rowsl = [[1 / 2, 1 / 4, 1 / 8 :: real]]\<rparr>"
  let ?x1 = "\<lparr>ncols = 1, rowsl = [[1 / 2 :: real]]\<rparr>"
  have c3: "\<exists>d<shape1 ?x3. int d \<notin> set []
            \<and> (length (bounds (integral_bounds ?e)) \<le> d \<or> length (lengthscales ?e) \<le> d)"
    by (rule exI [of _ 2]) (simp add: shape1_def)
  have d3: "length (bounds (integral_bounds ?e)) < shape1 ?x3
            \<or> length (lengthscales ?e) < shape1 ?x3"
    by (simp add: shape1_def)
  have c1: "\<not> (\<exists>d<shape1 ?x1. int d \<notin> set []
            \<and> (length (bounds (integral_bounds ?e)) \<le> d \<or> length (lengthscales ?e) \<le> d))"
    by (simp add: shape1_def lengthscales_def)
  have d1: "\<not> (length (bounds (integral_bounds ?e)) < shape1 ?x1
            \<or> length (lengthscales ?e) < shape1 ?x1)"
    by (simp add: shape1_def lengthscales_def)
  have S: "{d. d < shape1 ?x1 \<and> int d \<notin> set []} = {0}" by (auto simp: shape1_def)
  note t3 = qK_no_dimension_check [of ?e ?x3 "[]"]
  note t1 = qK_no_dimension_check [of ?e ?x1 "[]"]
  have "qK ?e ?x3 (Some []) = Inl IndexError"
    using t3 [THEN conjunct1] unfolding if_P [OF c3] .
  moreover have "dqK_dx ?e ?x3 = Inl IndexError"
    using t3 [THEN conjunct2] unfolding if_P [OF d3] .
  moreover have "qK ?e ?x1 (Some []) = Inr \<lparr>ncols = shape0 ?x1,
                rowsl = [map (\<lambda>i. (\<Prod>d\<in>{d. d < shape1 ?x1 \<and> int d \<notin> set []}.
                            qK_1d_elem (entry ?x1 i d) (bounds (integral_bounds ?e) ! d)
                              (lengthscales ?e ! d)) * variance ?e)
                         [0..<shape0 ?x1]]\<rparr>"
    using t1 [THEN conjunct1] unfolding if_not_P [OF c1] .
  moreover have "\<exists>g. dqK_dx ?e ?x1 = Inr g \<and> shape0 g = shape1 ?x1 \<and> shape1 g = shape0 ?x1"
    using t1 [THEN conjunct2] unfolding if_not_P [OF d1] .
  ultimately show ?thesis
    unfolding S by (simp add: shape0_def shape1_def entry_def variance_def lengthscales_def)
qed

end
